theory Spec2Isabelle
  imports Complex_Main
begin

section \<open>Process flow editor: data model\<close>

text \<open>
  The editor of \<^verbatim>\<open>src/App.js\<close> keeps three pieces of state: the list of stored flows,
  the active flow (or null) and the step sequence shown for it. The handlers
  \<^verbatim>\<open>addStepToFlow\<close>, \<^verbatim>\<open>removeStep\<close>, \<^verbatim>\<open>exportFlow\<close> and \<^verbatim>\<open>importFlow\<close> read that state and
  replace it; \<^verbatim>\<open>calculateEnvironmentalImpact\<close> only reads the step sequence.

  JavaScript objects become records. A stored flow is created by \<^verbatim>\<open>createNewFlow\<close> or is
  an imported object, which is stored with whatever fields the document had: \<^verbatim>\<open>name\<close>,
  \<^verbatim>\<open>description\<close>, \<^verbatim>\<open>steps\<close> and \<^verbatim>\<open>createdAt\<close> are an \<open>option\<close>, while \<^verbatim>\<open>id\<close> and
  \<^verbatim>\<open>modifiedAt\<close> are set on every path. \<^verbatim>\<open>stepIndex\<close>, which catalog entries do not have,
  is an \<open>option\<close> too. A field that is present has the type that the editor itself gives
  it, and the steps of a flow are whole. The fields \<^verbatim>\<open>id\<close>, \<^verbatim>\<open>name\<close> and \<^verbatim>\<open>power\<close> carry a
  prefix or suffix, since two records share the first two and the third is the name of
  exponentiation.

  Numbers of the step data are of a type \<open>'n\<close>, and the arithmetic on them is an argument
  of the aggregation (see \<open>number_ops\<close>); the program is its instance \<open>double_ops\<close> on
  \<open>js_number\<close>, the double-precision numbers of JavaScript. Flow ids are readings of
  \<^verbatim>\<open>Date.now()\<close>, milliseconds as a natural number; \<^verbatim>\<open>createdAt\<close> and \<^verbatim>\<open>modifiedAt\<close> are kept
  as the instant, in milliseconds, that the stored ISO-8601 text denotes.
\<close>

record 'n step =
  step_id :: string
  step_name :: string
  duration :: 'n
  power_w :: 'n
  chemicals :: "string list"
  temperature :: 'n
  envImpact :: string
  stepIndex :: "nat option"

record 'n flow =
  flow_id :: nat
  flow_name :: "string option"
  description :: "string option"
  steps :: "'n step list option"
  createdAt :: "nat option"
  modifiedAt :: nat

record 'n app_state =
  flows :: "'n flow list"
  currentFlow :: "'n flow option"
  selectedSteps :: "'n step list"

text \<open>The state of the first render: \<^verbatim>\<open>useState([])\<close>, \<^verbatim>\<open>useState(null)\<close>, \<^verbatim>\<open>useState([])\<close>.\<close>

definition initial_state :: "'n app_state" where
  "initial_state = \<lparr>flows = [], currentFlow = None, selectedSteps = []\<rparr>"

subsection \<open>Numbers and their text\<close>

text \<open>
  The operations of the aggregation on numbers: the number an integer literal denotes,
  \<^verbatim>\<open>+\<close>, \<^verbatim>\<open>*\<close>, \<^verbatim>\<open>/\<close> and \<^verbatim>\<open>toFixed\<close>.
\<close>

record 'n number_ops =
  num_lit :: "nat \<Rightarrow> 'n"
  num_add :: "'n \<Rightarrow> 'n \<Rightarrow> 'n"
  num_mul :: "'n \<Rightarrow> 'n \<Rightarrow> 'n"
  num_div :: "'n \<Rightarrow> 'n \<Rightarrow> 'n"
  num_toFixed :: "'n \<Rightarrow> nat \<Rightarrow> string"

text \<open>
  \<^verbatim>\<open>totalEnergy\<close> is the number \<^verbatim>\<open>0\<close> on one path and the string that \<^verbatim>\<open>toFixed\<close> returns on
  the other; the datatype keeps the two apart.
\<close>

datatype 'n js_value = is_JSNumber: JSNumber 'n | is_JSString: JSString string

record 'n impact =
  totalEnergy :: "'n js_value"
  totalTime :: 'n
  impact_chemicals :: "string list"
  riskLevel :: string

text \<open>Decimal digits of a natural number, as a template literal prints an integer.\<close>

definition digit_char :: "nat \<Rightarrow> char" where
  "digit_char d = ''0123456789'' ! d"

fun show_nat :: "nat \<Rightarrow> string" where
  "show_nat n =
     (if n < 10 then [digit_char n] else show_nat (n div 10) @ [digit_char (n mod 10)])"

declare show_nat.simps [simp del]

subsection \<open>Double-precision numbers\<close>

text \<open>
  A JavaScript number is \<^verbatim>\<open>NaN\<close>, an infinity with its sign, or a finite double: a sign
  (\<open>True\<close> for minus, so that \<^verbatim>\<open>-0\<close> is \<open>Finite True 0\<close>) and a magnitude. The result of an
  operation is the exact result rounded to the nearest double, to the one with an even
  significand at a tie. For a magnitude \<open>q\<close> with \<open>2 ^ e \<le> q < 2 ^ (e + 1)\<close> the doubles
  around it are the multiples of \<open>2 ^ (e - 52)\<close>; below \<open>2 ^ - 1022\<close> they are the
  multiples of \<open>2 ^ - 1074\<close>; a result that rounds to \<open>2 ^ 1024\<close> or more is an infinity.
\<close>

datatype js_number = NaN | Infinity bool | Finite bool real

fun bit_length :: "nat \<Rightarrow> nat" where
  "bit_length n = (if n = 0 then 0 else Suc (bit_length (n div 2)))"

declare bit_length.simps [simp del]

definition floor_log2 :: "real \<Rightarrow> int" where
  "floor_log2 q =
     (if 1 \<le> q then int (bit_length (nat \<lfloor>q\<rfloor>)) - 1
      else - int (bit_length (nat \<lceil>1 / q\<rceil> - 1)))"

definition pow2 :: "int \<Rightarrow> real" where
  "pow2 k = (if 0 \<le> k then 2 ^ nat k else 1 / 2 ^ nat (- k))"

definition round_half_even :: "real \<Rightarrow> int" where
  "round_half_even y =
     (let f = \<lfloor>y\<rfloor>; r = y - of_int f
      in if r < 1 / 2 then f else if 1 / 2 < r then f + 1 else if even f then f else f + 1)"

definition round_magnitude :: "real \<Rightarrow> real" where
  "round_magnitude q =
     (let e = max (floor_log2 q) (- 1022); ulp = pow2 (e - 52)
      in of_int (round_half_even (q / ulp)) * ulp)"

definition to_double :: "bool \<Rightarrow> real \<Rightarrow> js_number" where
  "to_double neg q =
     (if q = 0 then Finite neg 0
      else let v = round_magnitude q
           in if 2 ^ 1024 \<le> v then Infinity neg else Finite neg v)"

definition signed :: "bool \<Rightarrow> real \<Rightarrow> real" where
  "signed neg m = (if neg then - m else m)"

text \<open>
  \<^verbatim>\<open>+\<close>, \<^verbatim>\<open>*\<close> and \<^verbatim>\<open>/\<close> on numbers. An exact sum of zero is \<^verbatim>\<open>+0\<close> unless both summands are
  \<^verbatim>\<open>-0\<close>; the sign of a product or quotient is the exclusive or of the signs.
\<close>

fun js_add :: "js_number \<Rightarrow> js_number \<Rightarrow> js_number" where
  "js_add NaN _ = NaN"
| "js_add _ NaN = NaN"
| "js_add (Infinity s) (Infinity t) = (if s = t then Infinity s else NaN)"
| "js_add (Infinity s) (Finite _ _) = Infinity s"
| "js_add (Finite _ _) (Infinity t) = Infinity t"
| "js_add (Finite s a) (Finite t b) =
     (let r = signed s a + signed t b
      in if r = 0 then Finite (s \<and> t) 0 else to_double (r < 0) \<bar>r\<bar>)"

fun js_mul :: "js_number \<Rightarrow> js_number \<Rightarrow> js_number" where
  "js_mul NaN _ = NaN"
| "js_mul _ NaN = NaN"
| "js_mul (Infinity s) (Infinity t) = Infinity (s \<noteq> t)"
| "js_mul (Infinity s) (Finite t b) = (if b = 0 then NaN else Infinity (s \<noteq> t))"
| "js_mul (Finite s a) (Infinity t) = (if a = 0 then NaN else Infinity (s \<noteq> t))"
| "js_mul (Finite s a) (Finite t b) = to_double (s \<noteq> t) (a * b)"

fun js_div :: "js_number \<Rightarrow> js_number \<Rightarrow> js_number" where
  "js_div NaN _ = NaN"
| "js_div _ NaN = NaN"
| "js_div (Infinity s) (Infinity t) = NaN"
| "js_div (Infinity s) (Finite t b) = Infinity (s \<noteq> t)"
| "js_div (Finite s a) (Infinity t) = Finite (s \<noteq> t) 0"
| "js_div (Finite s a) (Finite t b) =
     (if b = 0 then (if a = 0 then NaN else Infinity (s \<noteq> t))
      else to_double (s \<noteq> t) (a / b))"

definition js_lit :: "nat \<Rightarrow> js_number" where
  "js_lit n = to_double False (real n)"

text \<open>
  \<^verbatim>\<open>Number.prototype.toFixed\<close> with \<open>d\<close> digits (\<open>d\<close> at most 100). A number that is not
  finite prints as \<^verbatim>\<open>NaN\<close>, \<^verbatim>\<open>Infinity\<close> or \<^verbatim>\<open>-Infinity\<close>. Otherwise the sign is printed for a
  value below zero and the magnitude \<open>x\<close> follows: below \<open>10 ^ 21\<close> as the integer \<open>n\<close>
  nearest to \<open>x * 10 ^ d\<close> (the larger one at a tie), padded with zeros to \<open>d + 1\<close>
  digits, with the point before the last \<open>d\<close> of them. From \<open>10 ^ 21\<close> on the text is that
  of \<^verbatim>\<open>Number::toString\<close>, whose last digit the language leaves to the implementation: it
  is the argument \<open>large\<close>.
\<close>

definition fixed_digits :: "real \<Rightarrow> nat \<Rightarrow> string" where
  "fixed_digits x d =
     (let n = nat \<lfloor>x * 10 ^ d + 1 / 2\<rfloor>;
          m = show_nat n;
          m' = replicate (Suc d - length m) CHR ''0'' @ m;
          k = length m' - d
      in if d = 0 then m' else take k m' @ ''.'' @ drop k m')"

fun js_toFixed :: "(real \<Rightarrow> string) \<Rightarrow> js_number \<Rightarrow> nat \<Rightarrow> string" where
  "js_toFixed large NaN d = ''NaN''"
| "js_toFixed large (Infinity neg) d = (if neg then ''-Infinity'' else ''Infinity'')"
| "js_toFixed large (Finite neg x) d =
     (if neg \<and> x \<noteq> 0 then ''-'' else '''') @
     (if 10 ^ 21 \<le> x then large x else fixed_digits x d)"

definition double_ops :: "(real \<Rightarrow> string) \<Rightarrow> js_number number_ops" where
  "double_ops large =
     \<lparr>num_lit = js_lit, num_add = js_add, num_mul = js_mul, num_div = js_div,
      num_toFixed = js_toFixed large\<rparr>"

section \<open>Impact aggregation\<close>

text \<open>
  \<^verbatim>\<open>[...new Set(xs)]\<close>: a Set keeps its elements in the order of their first insertion, and
  adding an element that is already present changes nothing.
\<close>

definition set_add :: "'a list \<Rightarrow> 'a \<Rightarrow> 'a list" where
  "set_add acc x = (if x \<in> set acc then acc else acc @ [x])"

definition spread_Set :: "'a list \<Rightarrow> 'a list" where
  "spread_Set xs = foldl set_add [] xs"

text \<open>
  The concatenated per-step lists, and the index at which a name occurs first in a
  list (the length of the list when it does not occur).
\<close>

definition all_chemicals :: "'n step list \<Rightarrow> string list" where
  "all_chemicals selSteps = concat (map chemicals selSteps)"

definition first_index :: "'a list \<Rightarrow> 'a \<Rightarrow> nat" where
  "first_index xs x = length (takeWhile (\<lambda>y. y \<noteq> x) xs)"

text \<open>
  \<^verbatim>\<open>calculateEnvironmentalImpact\<close> (lines 96-109). \<^verbatim>\<open>reduce\<close> is a left fold from the initial
  value, \<^verbatim>\<open>flatMap\<close> concatenates the per-step lists, and \<^verbatim>\<open>includes\<close> on an array of two
  strings is membership.
\<close>

definition calculateEnvironmentalImpact :: "'n number_ops \<Rightarrow> 'n step list \<Rightarrow> 'n impact" where
  "calculateEnvironmentalImpact ops selSteps =
     (if length selSteps = 0
      then \<lparr>totalEnergy = JSNumber (num_lit ops 0), totalTime = num_lit ops 0,
            impact_chemicals = [], riskLevel = ''low''\<rparr>
      else
        let totEnergy = foldl (\<lambda>sum step. num_add ops sum
                (num_div ops (num_mul ops (power_w step) (duration step)) (num_lit ops 60)))
                (num_lit ops 0) selSteps;
            totTime = foldl (\<lambda>sum step. num_add ops sum (duration step)) (num_lit ops 0) selSteps;
            chems = spread_Set (concat (map chemicals selSteps));
            highImpactSteps =
              length (filter (\<lambda>step. envImpact step \<in> set [''high'', ''very_high'']) selSteps);
            risk = (if highImpactSteps > 2 then ''very_high''
                    else if highImpactSteps > 0 then ''high''
                    else if length selSteps > 5 then ''medium'' else ''low'')
        in \<lparr>totalEnergy = JSString (num_toFixed ops totEnergy 1), totalTime = totTime,
             impact_chemicals = chems, riskLevel = risk\<rparr>)"


section \<open>Flow store\<close>

text \<open>
  \<^verbatim>\<open>createNewFlow\<close> (lines 41-54). The clock is read three times: \<^verbatim>\<open>Date.now()\<close> for the id
  and \<^verbatim>\<open>new Date()\<close> once for each timestamp.
\<close>

definition createNewFlow :: "nat \<Rightarrow> nat \<Rightarrow> nat \<Rightarrow> 'n app_state \<Rightarrow> 'n app_state" where
  "createNewFlow dateNow newDate1 newDate2 s =
     (let newFlow = \<lparr>flow_id = dateNow,
                      flow_name = Some (''Process Flow '' @ show_nat (length (flows s) + 1)),
                      description = Some '''', steps = Some [],
                      createdAt = Some newDate1, modifiedAt = newDate2\<rparr>
      in s\<lparr>flows := flows s @ [newFlow], currentFlow := Some newFlow, selectedSteps := []\<rparr>)"

section \<open>Step sequencer\<close>

text \<open>
  \<^verbatim>\<open>addStepToFlow\<close> (lines 57-77). \<open>dateNow\<close> is what \<^verbatim>\<open>Date.now()\<close> returns in the call and
  \<open>newDate\<close> the instant of \<^verbatim>\<open>new Date()\<close>. The argument is a catalog entry, or a step of the
  sequence when the copy button is used: the spread keeps every field and the two named
  ones are overwritten.
\<close>

definition addStepToFlow :: "nat \<Rightarrow> nat \<Rightarrow> 'n step \<Rightarrow> 'n app_state \<Rightarrow> 'n app_state" where
  "addStepToFlow dateNow newDate step s =
     (case currentFlow s of
        None \<Rightarrow> s
      | Some cur \<Rightarrow>
          let newStep = step\<lparr>step_id := step_id step @ ''_'' @ show_nat dateNow,
                             stepIndex := Some (length (selectedSteps s))\<rparr>;
              updatedSteps = selectedSteps s @ [newStep];
              updatedFlow = cur\<lparr>steps := Some updatedSteps, modifiedAt := newDate\<rparr>
          in s\<lparr>selectedSteps := updatedSteps,
                currentFlow := Some updatedFlow,
                flows := map (\<lambda>f. if flow_id f = flow_id cur then updatedFlow else f) (flows s)\<rparr>)"

text \<open>
  \<^verbatim>\<open>removeStep\<close> (lines 80-93). The callback of \<^verbatim>\<open>filter\<close> sees each element with its index
  and keeps those whose index is not the argument; the argument is any integer.
\<close>

definition removeStep :: "nat \<Rightarrow> int \<Rightarrow> 'n app_state \<Rightarrow> 'n app_state" where
  "removeStep newDate stepIdx s =
     (let updatedSteps =
            map snd (filter (\<lambda>(index, _). int index \<noteq> stepIdx) (enumerate 0 (selectedSteps s)));
          s1 = s\<lparr>selectedSteps := updatedSteps\<rparr>
      in case currentFlow s of
           None \<Rightarrow> s1
         | Some cur \<Rightarrow>
             let updatedFlow = cur\<lparr>steps := Some updatedSteps, modifiedAt := newDate\<rparr>
             in s1\<lparr>currentFlow := Some updatedFlow,
                    flows := map (\<lambda>f. if flow_id f = flow_id cur then updatedFlow else f) (flows s)\<rparr>)"

section \<open>Export and import\<close>

text \<open>
  \<^verbatim>\<open>JSON.stringify\<close> and \<^verbatim>\<open>JSON.parse\<close> belong to the runtime and are arguments. A parse
  either throws (\<open>None\<close>) or returns a value: \<^verbatim>\<open>null\<close>, a number, string or boolean, or an
  object or array. Of an object or array the import reads the fields below, each of
  which may be missing (an array, like \<^verbatim>\<open>{}\<close>, has none of them); the \<^verbatim>\<open>id\<close> and
  \<^verbatim>\<open>modifiedAt\<close> of the document are overwritten and are not kept.
\<close>

record 'n flow_doc =
  doc_name :: "string option"
  doc_description :: "string option"
  doc_steps :: "'n step list option"
  doc_createdAt :: "nat option"

datatype 'n parsed = JSNull | JSPrimitive | JSObject "'n flow_doc"

text \<open>
  \<^verbatim>\<open>exportFlow\<close> (lines 129-139). Nothing happens without an active flow. The text is
  made first; computing the file name calls \<^verbatim>\<open>currentFlow.name.replace\<close>, which throws a
  type error when the flow has no name, before the download is started. Otherwise the
  text is downloaded; the file name itself is not part of the model.
\<close>

datatype export_result = NoActiveFlow | ThrewTypeError | Download string

definition exportFlow :: "('n flow \<Rightarrow> string) \<Rightarrow> 'n app_state \<Rightarrow> export_result" where
  "exportFlow JSON_stringify s =
     (case currentFlow s of
        None \<Rightarrow> NoActiveFlow
      | Some cur \<Rightarrow>
          let dataStr = JSON_stringify cur
          in (case flow_name cur of
                None \<Rightarrow> ThrewTypeError
              | Some name \<Rightarrow> Download dataStr))"

text \<open>
  \<^verbatim>\<open>importFlow\<close> (lines 142-161), with the callback of the reader run at once on the text of
  the chosen file (\<open>None\<close>: no file chosen). The result is the message of the alert, if
  any, and the state. Everything thrown inside the \<^verbatim>\<open>try\<close> block ends in the same alert: the
  syntax error of the parser, and the type error of assigning the \<^verbatim>\<open>id\<close> of \<^verbatim>\<open>null\<close> or, in
  the strict mode of a module, of a number, string or boolean.
\<close>

definition invalid_json_alert :: string where
  "invalid_json_alert = ''Error importing flow: Invalid JSON file''"

text \<open>
  \<^verbatim>\<open>flow.steps || []\<close>: how the import (line 155) and the list of flows (line 423) read
  the steps of a flow.
\<close>

definition steps_or_empty :: "'n flow \<Rightarrow> 'n step list" where
  "steps_or_empty f = (case steps f of None \<Rightarrow> [] | Some xs \<Rightarrow> xs)"

definition importFlow ::
  "(string \<Rightarrow> 'n parsed option) \<Rightarrow> nat \<Rightarrow> nat \<Rightarrow> string option \<Rightarrow> 'n app_state
     \<Rightarrow> string option \<times> 'n app_state" where
  "importFlow JSON_parse dateNow newDate file s =
     (case file of
        None \<Rightarrow> (None, s)
      | Some text \<Rightarrow>
          (case JSON_parse text of
             None \<Rightarrow> (Some invalid_json_alert, s)
           | Some JSNull \<Rightarrow> (Some invalid_json_alert, s)
           | Some JSPrimitive \<Rightarrow> (Some invalid_json_alert, s)
           | Some (JSObject doc) \<Rightarrow>
               let importedFlow =
                     \<lparr>flow_id = dateNow, flow_name = doc_name doc,
                      description = doc_description doc, steps = doc_steps doc,
                      createdAt = doc_createdAt doc, modifiedAt = newDate\<rparr>
               in (None, s\<lparr>flows := flows s @ [importedFlow],
                            currentFlow := Some importedFlow,
                            selectedSteps := steps_or_empty importedFlow\<rparr>)))"

section \<open>Catalog entries and sample data\<close>

text \<open>
  Entries of \<^verbatim>\<open>PROCESS_STEPS_LIBRARY\<close> (lines 5-23); each number is the double that the
  literal of the source denotes. \<open>nine_watt_minute\<close> is not a catalog entry: it is a step
  as an imported document can hold it, 9 W for 1 min.
\<close>

definition catalog_step ::
  "string \<Rightarrow> string \<Rightarrow> nat \<Rightarrow> nat \<Rightarrow> string list \<Rightarrow> nat \<Rightarrow> string \<Rightarrow> js_number step" where
  "catalog_step i n d p c t e =
     \<lparr>step_id = i, step_name = n, duration = js_lit d, power_w = js_lit p, chemicals = c,
      temperature = js_lit t, envImpact = e, stepIndex = None\<rparr>"

definition cvd_oxide :: "js_number step" where
  "cvd_oxide = catalog_step ''cvd_oxide'' ''CVD Oxide'' 120 2500 [''TEOS'', ''O2''] 400 ''medium''"

definition pvd_metal :: "js_number step" where
  "pvd_metal = catalog_step ''pvd_metal'' ''PVD Metal'' 90 3000 [''Ar'', ''Ti''] 25 ''low''"

definition ald_hfO2 :: "js_number step" where
  "ald_hfO2 = catalog_step ''ald_hfO2'' ''ALD HfO2'' 180 1500 [''TDMAH'', ''H2O''] 300 ''high''"

definition wet_etch_metal :: "js_number step" where
  "wet_etch_metal =
     catalog_step ''wet_etch_metal'' ''Wet Etch Metal'' 30 0 [''H2SO4'', ''H2O2''] 80 ''high''"

definition euv_exposure :: "js_number step" where
  "euv_exposure = catalog_step ''euv_exposure'' ''EUV Exposure'' 180 5000 [] 25 ''very_high''"

definition rca_clean :: "js_number step" where
  "rca_clean =
     catalog_step ''rca_clean'' ''RCA Clean'' 20 100 [''NH4OH'', ''H2O2'', ''HCl''] 70 ''medium''"

definition megasonic_clean :: "js_number step" where
  "megasonic_clean =
     catalog_step ''megasonic_clean'' ''Megasonic Clean'' 15 800 [''DI Water''] 25 ''low''"

definition nine_watt_minute :: "js_number step" where
  "nine_watt_minute = catalog_step ''trickle'' ''Trickle'' 1 9 [] 25 ''low''"




text \<open>
  A store with one new flow, created when the clock reads 1762135000000
  (2025-11-03T01:56:40.000Z), and the same store after two steps were added one and two
  seconds later.
\<close>

definition sample_state :: "js_number app_state" where
  "sample_state = createNewFlow 1762135000000 1762135000000 1762135000000 initial_state"

definition two_step_state :: "js_number app_state" where
  "two_step_state =
     addStepToFlow 1762135002000 1762135002000 pvd_metal
       (addStepToFlow 1762135001000 1762135001000 cvd_oxide sample_state)"

text \<open>The flow of \<open>sample_state\<close>, and the active flow of \<open>two_step_state\<close>.\<close>

definition sample_flow :: "js_number flow" where
  "sample_flow =
     \<lparr>flow_id = 1762135000000, flow_name = Some ''Process Flow 1'', description = Some '''',
      steps = Some [], createdAt = Some 1762135000000, modifiedAt = 1762135000000\<rparr>"

definition two_steps :: "js_number step list" where
  "two_steps =
     [cvd_oxide\<lparr>step_id := ''cvd_oxide_1762135001000'', stepIndex := Some 0\<rparr>,
      pvd_metal\<lparr>step_id := ''pvd_metal_1762135002000'', stepIndex := Some 1\<rparr>]"

definition two_step_flow :: "js_number flow" where
  "two_step_flow =
     \<lparr>flow_id = 1762135000000, flow_name = Some ''Process Flow 1'', description = Some '''',
      steps = Some two_steps, createdAt = Some 1762135000000, modifiedAt = 1762135002000\<rparr>"

text \<open>
  The text that \<^verbatim>\<open>JSON.stringify(flow, null, 2)\<close> gives for \<open>sample_flow\<close>, and the fields
  that \<^verbatim>\<open>JSON.parse\<close> returns for that text.
\<close>

definition nl :: string where
  "nl = [CHR 0x0A]"

definition sample_flow_text :: string where
  \<open>sample_flow_text =
     ''{'' @ nl @
     ''  "id": 1762135000000,'' @ nl @
     ''  "name": "Process Flow 1",'' @ nl @
     ''  "description": "",'' @ nl @
     ''  "steps": [],'' @ nl @
     ''  "createdAt": "2025-11-03T01:56:40.000Z",'' @ nl @
     ''  "modifiedAt": "2025-11-03T01:56:40.000Z"'' @ nl @
     ''}''\<close>

definition sample_doc :: "js_number flow_doc" where
  "sample_doc =
     \<lparr>doc_name = Some ''Process Flow 1'', doc_description = Some '''',
      doc_steps = Some [], doc_createdAt = Some 1762135000000\<rparr>"

text \<open>
  Hand-written documents without a \<^verbatim>\<open>steps\<close> field: one with the other fields, and the
  fields that \<^verbatim>\<open>{}\<close> and \<^verbatim>\<open>[]\<close> carry.
\<close>

definition no_steps_text :: string where
  \<open>no_steps_text =
     ''{"id": 7, "name": "Imported flow", "description": "no steps field", '' @
     ''"createdAt": "2025-11-01T00:00:00.000Z", "modifiedAt": "2025-11-01T00:00:00.000Z"}''\<close>

definition no_steps_doc :: "js_number flow_doc" where
  "no_steps_doc =
     \<lparr>doc_name = Some ''Imported flow'', doc_description = Some ''no steps field'',
      doc_steps = None, doc_createdAt = Some 1761955200000\<rparr>"

definition empty_doc :: "js_number flow_doc" where
  "empty_doc =
     \<lparr>doc_name = None, doc_description = None, doc_steps = None, doc_createdAt = None\<rparr>"

text \<open>
  The runtime's \<^verbatim>\<open>JSON.parse\<close> at the texts above and at \<^verbatim>\<open>null\<close>, \<^verbatim>\<open>42\<close> and \<^verbatim>\<open>true\<close>, and
  its \<^verbatim>\<open>JSON.stringify\<close> at \<open>sample_flow\<close>. Off these points \<open>sample_parse\<close> answers as
  for a malformed text and \<open>sample_stringify\<close> gives the empty text; they are only
  evaluated at the points listed and at the malformed text \<^verbatim>\<open>{"name": "broken"\<close>.
\<close>

definition sample_parse :: "string \<Rightarrow> js_number parsed option" where
  "sample_parse text =
     (if text = ''null'' then Some JSNull
      else if text = ''42'' \<or> text = ''true'' then Some JSPrimitive
      else if text = ''{}'' \<or> text = ''[]'' then Some (JSObject empty_doc)
      else if text = no_steps_text then Some (JSObject no_steps_doc)
      else if text = sample_flow_text then Some (JSObject sample_doc)
      else None)"

definition sample_stringify :: "js_number flow \<Rightarrow> string" where
  "sample_stringify f = (if f = sample_flow then sample_flow_text else '''')"

section \<open>Evaluation rules\<close>

lemmas catalog_defs = catalog_step_def cvd_oxide_def pvd_metal_def ald_hfO2_def
  wet_etch_metal_def euv_exposure_def rca_clean_def megasonic_clean_def
  nine_watt_minute_def

lemmas show_nat_eval = show_nat.simps digit_char_def

lemma sample_state_eq:
  "sample_state = \<lparr>flows = [sample_flow], currentFlow = Some sample_flow, selectedSteps = []\<rparr>"
  by (simp add: sample_state_def createNewFlow_def initial_state_def sample_flow_def Let_def
      show_nat_eval)

lemma two_step_state_steps:
  "selectedSteps two_step_state =
     [cvd_oxide\<lparr>step_id := ''cvd_oxide_1762135001000'', stepIndex := Some 0\<rparr>,
      pvd_metal\<lparr>step_id := ''pvd_metal_1762135002000'', stepIndex := Some 1\<rparr>]"
  by (simp add: two_step_state_def sample_state_eq addStepToFlow_def Let_def show_nat_eval
      catalog_defs)

lemma two_step_state_eq:
  "two_step_state =
     \<lparr>flows = [two_step_flow], currentFlow = Some two_step_flow, selectedSteps = two_steps\<rparr>"
  by (simp add: two_step_state_def sample_state_eq addStepToFlow_def Let_def show_nat_eval
      catalog_defs two_step_flow_def two_steps_def sample_flow_def)

section \<open>Properties of the double-precision model\<close>


text \<open>\<open>bit_length n\<close> is the number of binary digits of \<open>n\<close>.\<close>

lemma bit_length_bounds:
  "0 < n \<Longrightarrow> 2 ^ (bit_length n - 1) \<le> n \<and> n < 2 ^ bit_length n"
proof (induction n rule: less_induct)
  case (less n)
  show ?case
  proof (cases "n div 2 = 0")
    case True
    with less.prems have "n = 1" by (simp add: div_eq_0_iff)
    then show ?thesis by (simp add: bit_length.simps)
  next
    case False
    then have pos: "0 < n div 2" by simp
    have "n div 2 < n" using less.prems by simp
    from less.IH [OF this pos]
    have ih: "2 ^ (bit_length (n div 2) - 1) \<le> n div 2" "n div 2 < 2 ^ bit_length (n div 2)"
      by simp_all
    have bl: "bit_length n = Suc (bit_length (n div 2))"
      using less.prems by (subst bit_length.simps) simp
    have "0 < bit_length (n div 2)"
      using pos by (subst bit_length.simps) simp
    then have e: "(2::nat) ^ bit_length (n div 2) = 2 * 2 ^ (bit_length (n div 2) - 1)"
      by (cases "bit_length (n div 2)") simp_all
    have d: "2 * (n div 2) \<le> n" "n \<le> 2 * (n div 2) + 1" by simp_all
    have "2 ^ bit_length (n div 2) \<le> n" using e ih(1) d(1) by linarith
    moreover have "n < 2 * 2 ^ bit_length (n div 2)" using ih(2) d(2) by linarith
    ultimately show ?thesis by (simp add: bl)
  qed
qed

lemma real_pow2_le: "(2::nat) ^ k \<le> n \<Longrightarrow> (2::real) ^ k \<le> real n"
  by (metis of_nat_le_iff of_nat_numeral of_nat_power)

lemma real_less_pow2: "n < (2::nat) ^ k \<Longrightarrow> real n + 1 \<le> (2::real) ^ k"
proof -
  assume "n < 2 ^ k"
  then have "Suc n \<le> 2 ^ k" by simp
  then have "real (Suc n) \<le> real (2 ^ k)" by (simp only: of_nat_le_iff)
  then show ?thesis by simp
qed

text \<open>\<open>floor_log2 q\<close> is the binary exponent of a positive \<open>q\<close>.\<close>

lemma floor_log2_bounds:
  assumes "0 < q"
  shows "pow2 (floor_log2 q) \<le> q \<and> q < pow2 (floor_log2 q + 1)"
proof (cases "1 \<le> q")
  case True
  define n where "n = nat \<lfloor>q\<rfloor>"
  have n: "0 < n" "real n \<le> q" "q < real n + 1"
    using True by (simp_all add: n_def)
  from bit_length_bounds [OF n(1)]
  have b: "2 ^ (bit_length n - 1) \<le> n" "n < 2 ^ bit_length n" by simp_all
  have pos: "0 < bit_length n" using n(1) by (subst bit_length.simps) simp
  have fl: "floor_log2 q = int (bit_length n) - 1"
    using True by (simp add: floor_log2_def n_def)
  have lo: "2 ^ (bit_length n - 1) \<le> q"
    using real_pow2_le [OF b(1)] n(2) by linarith
  have hi: "q < 2 ^ bit_length n"
    using real_less_pow2 [OF b(2)] n(3) by linarith
  have "nat (int (bit_length n) - 1) = bit_length n - 1" by simp
  then show ?thesis using lo hi pos by (simp add: fl pow2_def)
next
  case False
  define c where "c = nat \<lceil>1 / q\<rceil>"
  have q1: "1 < 1 / q" using assms False by simp
  have c: "2 \<le> c" "real c - 1 < 1 / q" "1 / q \<le> real c"
    using q1 by (simp_all add: c_def) linarith+
  define n where "n = c - 1"
  have npos: "0 < n" using c(1) by (simp add: n_def)
  from bit_length_bounds [OF npos]
  have b: "2 ^ (bit_length n - 1) \<le> n" "n < 2 ^ bit_length n" by simp_all
  have pos: "0 < bit_length n" using npos by (subst bit_length.simps) simp
  have fl: "floor_log2 q = - int (bit_length n)"
    using False by (simp add: floor_log2_def n_def c_def)
  have rn: "real n = real c - 1" using c(1) by (simp add: n_def)
  have "1 / q \<le> 2 ^ bit_length n"
    using real_less_pow2 [OF b(2)] rn c(3) by linarith
  then have lo: "1 / 2 ^ bit_length n \<le> q"
    using assms by (simp add: field_simps)
  have "2 ^ (bit_length n - 1) < 1 / q"
    using real_pow2_le [OF b(1)] c(2) rn by linarith
  then have hi: "q < 1 / 2 ^ (bit_length n - 1)"
    using assms by (simp add: field_simps)
  have "pow2 (- int (bit_length n) + 1) = 1 / 2 ^ (bit_length n - 1)"
  proof (cases "bit_length n = 1")
    case True
    then show ?thesis by (simp add: pow2_def)
  next
    case False
    with pos have "1 < bit_length n" by simp
    then have "nat (int (bit_length n) - 1) = bit_length n - 1" by simp
    with \<open>1 < bit_length n\<close> show ?thesis by (simp add: pow2_def)
  qed
  with lo hi pos show ?thesis by (simp add: fl pow2_def)
qed

lemma pow2_pos: "0 < pow2 k"
  by (simp add: pow2_def)


lemma round_half_even_near: "\<bar>of_int (round_half_even y) - y\<bar> \<le> 1 / 2"
  unfolding round_half_even_def Let_def by (auto; linarith)


text \<open>The rounded magnitude is within half a unit in the last place of the exact one.\<close>

lemma round_magnitude_near:
  "\<bar>round_magnitude q - q\<bar> \<le> pow2 (max (floor_log2 q) (- 1022) - 52) / 2"
proof -
  let ?u = "pow2 (max (floor_log2 q) (- 1022) - 52)"
  let ?a = "real_of_int (round_half_even (q / ?u))"
  have u: "0 < ?u" by (rule pow2_pos)
  have "\<bar>?a - q / ?u\<bar> * ?u \<le> 1 / 2 * ?u"
    using round_half_even_near [of "q / ?u"] u by (simp only: mult_le_cancel_right_pos)
  moreover have "(?a - q / ?u) * ?u = ?a * ?u - q"
    using u by (simp add: left_diff_distrib)
  then have "\<bar>?a * ?u - q\<bar> = \<bar>?a - q / ?u\<bar> * \<bar>?u\<bar>"
    by (simp only: abs_mult [symmetric])
  then have "\<bar>?a * ?u - q\<bar> = \<bar>?a - q / ?u\<bar> * ?u"
    using u by (simp only: abs_of_pos)
  ultimately have "\<bar>?a * ?u - q\<bar> \<le> ?u / 2" by simp
  then show ?thesis by (simp only: round_magnitude_def Let_def)
qed










text \<open>
  Ties go to the even significand: \<open>2 ^ 53 + 1\<close> lies halfway between two doubles and
  is rounded down, \<open>2 ^ 53 + 3\<close> is rounded up.
\<close>

lemma js_add_ties:
  "js_add (Finite False 9007199254740992) (Finite False 1) = Finite False 9007199254740992"
  "js_add (Finite False 9007199254740994) (Finite False 1) = Finite False 9007199254740996"
proof -
  have fl1: "floor_log2 9007199254740993 = 53"
    by (simp add: floor_log2_def bit_length.simps)
  have r1: "round_magnitude 9007199254740993 = 9007199254740992"
    by (simp add: round_magnitude_def fl1 pow2_def round_half_even_def Let_def)
  have fl2: "floor_log2 9007199254740995 = 53"
    by (simp add: floor_log2_def bit_length.simps)
  have r2: "round_magnitude 9007199254740995 = 9007199254740996"
    by (simp add: round_magnitude_def fl2 pow2_def round_half_even_def Let_def)
  show "js_add (Finite False 9007199254740992) (Finite False 1)
          = Finite False 9007199254740992"
    by (simp add: signed_def to_double_def r1)
  show "js_add (Finite False 9007199254740994) (Finite False 1)
          = Finite False 9007199254740996"
    by (simp add: signed_def to_double_def r2)
qed

section \<open>Risk level\<close>

text \<open>
  Claim C2. For every step sequence the risk level follows the ordered policy: with
  \<open>highCount\<close> the number of steps whose impact is \<^verbatim>\<open>high\<close> or \<^verbatim>\<open>very_high\<close>, it is
  \<^verbatim>\<open>very_high\<close> when \<open>highCount > 2\<close>, else \<^verbatim>\<open>high\<close> when \<open>highCount > 0\<close>, else \<^verbatim>\<open>medium\<close>
  when the sequence has more than five steps, else \<^verbatim>\<open>low\<close>. The early return for the empty
  sequence agrees with the last branch.
\<close>

theorem riskLevel_policy:
  "riskLevel (calculateEnvironmentalImpact ops selSteps) =
     (let highCount = length (filter (\<lambda>step. envImpact step = ''high'' \<or>
                                           envImpact step = ''very_high'') selSteps)
      in if highCount > 2 then ''very_high''
         else if highCount > 0 then ''high''
         else if length selSteps > 5 then ''medium'' else ''low'')"
proof (cases selSteps)
  case Nil
  then show ?thesis by (simp add: calculateEnvironmentalImpact_def)
next
  case (Cons x xs)
  then show ?thesis by (simp add: calculateEnvironmentalImpact_def Let_def)
qed

text \<open>
  The boundary cases: three high-impact steps, one, none among six steps, none among
  five, and the empty sequence.
\<close>

theorem riskLevel_policy_witness:
  "\<forall>large.
     riskLevel (calculateEnvironmentalImpact (double_ops large)
        [ald_hfO2, wet_etch_metal, ald_hfO2]) = ''very_high''
   \<and> riskLevel (calculateEnvironmentalImpact (double_ops large) [euv_exposure]) = ''high''
   \<and> riskLevel (calculateEnvironmentalImpact (double_ops large)
        [pvd_metal, cvd_oxide, rca_clean, megasonic_clean, pvd_metal, cvd_oxide]) = ''medium''
   \<and> riskLevel (calculateEnvironmentalImpact (double_ops large)
        [pvd_metal, cvd_oxide, rca_clean, megasonic_clean, pvd_metal]) = ''low''
   \<and> riskLevel (calculateEnvironmentalImpact (double_ops large) []) = ''low''"
proof
  fix large
  show "riskLevel (calculateEnvironmentalImpact (double_ops large)
        [ald_hfO2, wet_etch_metal, ald_hfO2]) = ''very_high''
   \<and> riskLevel (calculateEnvironmentalImpact (double_ops large) [euv_exposure]) = ''high''
   \<and> riskLevel (calculateEnvironmentalImpact (double_ops large)
        [pvd_metal, cvd_oxide, rca_clean, megasonic_clean, pvd_metal, cvd_oxide]) = ''medium''
   \<and> riskLevel (calculateEnvironmentalImpact (double_ops large)
        [pvd_metal, cvd_oxide, rca_clean, megasonic_clean, pvd_metal]) = ''low''
   \<and> riskLevel (calculateEnvironmentalImpact (double_ops large) []) = ''low''"
    using riskLevel_policy [of "double_ops large" "[ald_hfO2, wet_etch_metal, ald_hfO2]"]
      riskLevel_policy [of "double_ops large" "[euv_exposure]"]
      riskLevel_policy [of "double_ops large"
        "[pvd_metal, cvd_oxide, rca_clean, megasonic_clean, pvd_metal, cvd_oxide]"]
      riskLevel_policy [of "double_ops large"
        "[pvd_metal, cvd_oxide, rca_clean, megasonic_clean, pvd_metal]"]
      riskLevel_policy [of "double_ops large" "[]"]
    by (simp add: catalog_defs)
qed

section \<open>Chemicals\<close>

lemma spread_Set_snoc: "spread_Set (xs @ [x]) = set_add (spread_Set xs) x"
  by (simp add: spread_Set_def)

lemma spread_Set_Nil: "spread_Set [] = []"
  by (simp add: spread_Set_def)

lemma set_spread_Set: "set (spread_Set xs) = set xs"
  by (induction xs rule: rev_induct) (auto simp: spread_Set_snoc spread_Set_Nil set_add_def)

lemma distinct_spread_Set: "distinct (spread_Set xs)"
  by (induction xs rule: rev_induct)
    (auto simp: spread_Set_snoc spread_Set_Nil set_add_def)

lemma first_index_less: "y \<in> set xs \<Longrightarrow> first_index xs y < length xs"
  by (induction xs) (auto simp: first_index_def)

lemma nth_first_index: "y \<in> set xs \<Longrightarrow> xs ! first_index xs y = y"
  by (induction xs) (auto simp: first_index_def)

lemma first_index_append_in: "y \<in> set xs \<Longrightarrow> first_index (xs @ ys) y = first_index xs y"
  by (simp add: first_index_def takeWhile_append1)

lemma first_index_snoc_new: "y \<notin> set xs \<Longrightarrow> first_index (xs @ [y]) y = length xs"
  by (induction xs) (auto simp: first_index_def)

text \<open>Earlier in the result means earlier first occurrence in the input.\<close>

lemma spread_Set_order:
  "i < j \<Longrightarrow> j < length (spread_Set xs) \<Longrightarrow>
     first_index xs (spread_Set xs ! i) < first_index xs (spread_Set xs ! j)"
proof (induction xs arbitrary: i j rule: rev_induct)
  case Nil
  then show ?case by (simp add: spread_Set_Nil)
next
  case (snoc x xs)
  let ?r = "spread_Set xs"
  have mem: "\<And>k. k < length ?r \<Longrightarrow> ?r ! k \<in> set xs"
    using set_spread_Set [of xs] nth_mem by blast
  show ?case
  proof (cases "x \<in> set xs")
    case True
    then have eq: "spread_Set (xs @ [x]) = ?r"
      by (simp add: spread_Set_snoc set_add_def set_spread_Set)
    with snoc.prems have "i < length ?r" "j < length ?r" by simp_all
    then show ?thesis
      using snoc.IH [of i j] snoc.prems eq mem by (simp add: first_index_append_in)
  next
    case False
    then have eq: "spread_Set (xs @ [x]) = ?r @ [x]"
      by (simp add: spread_Set_snoc set_add_def set_spread_Set)
    show ?thesis
    proof (cases "j < length ?r")
      case True
      with snoc.prems have "i < length ?r" by simp
      then show ?thesis
        using snoc.IH [of i j] snoc.prems True eq mem
        by (simp add: first_index_append_in nth_append)
    next
      case False
      with snoc.prems eq have j: "j = length ?r" by simp
      with snoc.prems have i: "i < length ?r" by simp
      have "first_index (xs @ [x]) (?r ! i) = first_index xs (?r ! i)"
        using mem [OF i] by (simp add: first_index_append_in)
      moreover have "first_index xs (?r ! i) < length xs"
        using mem [OF i] by (rule first_index_less)
      moreover have "first_index (xs @ [x]) x = length xs"
        using \<open>x \<notin> set xs\<close> by (rule first_index_snoc_new)
      ultimately show ?thesis using eq i j by (simp add: nth_append)
    qed
  qed
qed

lemma impact_chemicals_eq:
  "impact_chemicals (calculateEnvironmentalImpact ops selSteps) =
     spread_Set (all_chemicals selSteps)"
  by (cases selSteps)
    (simp_all add: calculateEnvironmentalImpact_def Let_def all_chemicals_def spread_Set_Nil)

text \<open>
  Claim C9. For every step sequence the chemicals of the summary have no duplicates, are
  exactly the names that occur in some step's list, and stand in the order of their first
  occurrence in the concatenated per-step lists; for the empty sequence the list is
  empty.
\<close>

theorem chemicals_first_occurrence_order:
  "distinct (impact_chemicals (calculateEnvironmentalImpact ops selSteps))
   \<and> set (impact_chemicals (calculateEnvironmentalImpact ops selSteps))
       = set (all_chemicals selSteps)
   \<and> (\<forall>i j. i < j \<and> j < length (impact_chemicals (calculateEnvironmentalImpact ops selSteps))
        \<longrightarrow> first_index (all_chemicals selSteps)
              (impact_chemicals (calculateEnvironmentalImpact ops selSteps) ! i)
            < first_index (all_chemicals selSteps)
                (impact_chemicals (calculateEnvironmentalImpact ops selSteps) ! j))
   \<and> (selSteps = [] \<longrightarrow> impact_chemicals (calculateEnvironmentalImpact ops selSteps) = [])"
  unfolding impact_chemicals_eq
  by (auto simp: distinct_spread_Set set_spread_Set spread_Set_order all_chemicals_def
      spread_Set_Nil)

text \<open>
  One sequence with a repeated name: \<^verbatim>\<open>H2O2\<close> occurs in the first and in the second step
  and is listed once, where it occurred first.
\<close>

theorem chemicals_first_occurrence_order_witness:
  "\<forall>large.
     impact_chemicals (calculateEnvironmentalImpact (double_ops large)
        [wet_etch_metal, rca_clean, ald_hfO2])
       = [''H2SO4'', ''H2O2'', ''NH4OH'', ''HCl'', ''TDMAH'', ''H2O'']
   \<and> all_chemicals [wet_etch_metal, rca_clean, ald_hfO2]
       = [''H2SO4'', ''H2O2'', ''NH4OH'', ''H2O2'', ''HCl'', ''TDMAH'', ''H2O'']
   \<and> first_index (all_chemicals [wet_etch_metal, rca_clean, ald_hfO2])
        (impact_chemicals (calculateEnvironmentalImpact (double_ops large)
           [wet_etch_metal, rca_clean, ald_hfO2]) ! 1)
     < first_index (all_chemicals [wet_etch_metal, rca_clean, ald_hfO2])
        (impact_chemicals (calculateEnvironmentalImpact (double_ops large)
           [wet_etch_metal, rca_clean, ald_hfO2]) ! 3)
   \<and> impact_chemicals (calculateEnvironmentalImpact (double_ops large) []) = []"
proof
  fix large
  let ?ops = "double_ops large"
  let ?xs = "[wet_etch_metal, rca_clean, ald_hfO2]"
  have r: "impact_chemicals (calculateEnvironmentalImpact ?ops ?xs)
             = [''H2SO4'', ''H2O2'', ''NH4OH'', ''HCl'', ''TDMAH'', ''H2O'']"
    by (simp add: impact_chemicals_eq all_chemicals_def spread_Set_def set_add_def catalog_defs)
  have a: "all_chemicals ?xs
             = [''H2SO4'', ''H2O2'', ''NH4OH'', ''H2O2'', ''HCl'', ''TDMAH'', ''H2O'']"
    by (simp add: all_chemicals_def catalog_defs)
  have len: "(1::nat) < 3
      \<and> 3 < length (impact_chemicals (calculateEnvironmentalImpact ?ops ?xs))"
    by (simp add: r)
  have ord: "first_index (all_chemicals ?xs)
        (impact_chemicals (calculateEnvironmentalImpact ?ops ?xs) ! 1)
     < first_index (all_chemicals ?xs)
        (impact_chemicals (calculateEnvironmentalImpact ?ops ?xs) ! 3)"
    using chemicals_first_occurrence_order [of ?ops ?xs] len by blast
  have e: "impact_chemicals (calculateEnvironmentalImpact ?ops []) = []"
    using chemicals_first_occurrence_order [of ?ops "[]"] by blast
  from r a ord e
  show "impact_chemicals (calculateEnvironmentalImpact ?ops ?xs)
       = [''H2SO4'', ''H2O2'', ''NH4OH'', ''HCl'', ''TDMAH'', ''H2O'']
   \<and> all_chemicals ?xs
       = [''H2SO4'', ''H2O2'', ''NH4OH'', ''H2O2'', ''HCl'', ''TDMAH'', ''H2O'']
   \<and> first_index (all_chemicals ?xs)
        (impact_chemicals (calculateEnvironmentalImpact ?ops ?xs) ! 1)
     < first_index (all_chemicals ?xs)
        (impact_chemicals (calculateEnvironmentalImpact ?ops ?xs) ! 3)
   \<and> impact_chemicals (calculateEnvironmentalImpact ?ops []) = []"
    by blast
qed

section \<open>Total energy\<close>



















section \<open>Properties of the step sequencer\<close>

text \<open>What the callback of \<^verbatim>\<open>filter\<close> in \<^verbatim>\<open>removeStep\<close> keeps, for any start of the numbering.\<close>

lemma remove_index_enumerate:
  "map snd (filter (\<lambda>(index, _). int index \<noteq> k) (enumerate n xs)) =
     (if int n \<le> k \<and> k < int (n + length xs)
      then take (nat k - n) xs @ drop (Suc (nat k - n)) xs else xs)"
proof (induction xs arbitrary: n)
  case Nil
  show ?case by simp
next
  case (Cons x xs)
  show ?case
  proof (cases "int n = k")
    case True
    then show ?thesis using Cons [of "Suc n"] by simp
  next
    case False
    show ?thesis
    proof (cases "int n < k \<and> k < int (n + length (x # xs))")
      case True
      then have "Suc (nat k - Suc n) = nat k - n" and "nat k - n \<noteq> 0" by linarith+
      then show ?thesis using True False Cons [of "Suc n"]
        by (simp add: take_Cons' drop_Cons')
    next
      case False
      with \<open>int n \<noteq> k\<close> show ?thesis using Cons [of "Suc n"] by auto
    qed
  qed
qed

lemma selectedSteps_removeStep:
  "selectedSteps (removeStep newDate stepIdx s) =
     map snd (filter (\<lambda>(index, _). int index \<noteq> stepIdx) (enumerate 0 (selectedSteps s)))"
  by (simp add: removeStep_def Let_def split: option.splits)

text \<open>
  In range, \<^verbatim>\<open>removeStep\<close> returns the survivors in their order, one element fewer; the
  elements themselves are not touched.
\<close>

lemma removeStep_in_range:
  assumes "i < length (selectedSteps s)"
  shows "selectedSteps (removeStep newDate (int i) s) =
           take i (selectedSteps s) @ drop (Suc i) (selectedSteps s)"
    and "length (selectedSteps (removeStep newDate (int i) s)) = length (selectedSteps s) - 1"
  unfolding selectedSteps_removeStep remove_index_enumerate using assms by simp_all

lemma two_step_state_current: "\<exists>cur. currentFlow two_step_state = Some cur"
  by (simp add: two_step_state_def sample_state_eq addStepToFlow_def Let_def)

lemma selectedSteps_addStepToFlow:
  "currentFlow s = Some cur \<Longrightarrow>
     selectedSteps (addStepToFlow dateNow newDate step s) =
       selectedSteps s @ [step\<lparr>step_id := step_id step @ ''_'' @ show_nat dateNow,
                               stepIndex := Some (length (selectedSteps s))\<rparr>]"
  by (simp add: addStepToFlow_def Let_def)

lemma currentFlow_removeStep:
  "currentFlow s = Some cur \<Longrightarrow> \<exists>cur'. currentFlow (removeStep newDate stepIdx s) = Some cur'"
  by (simp add: removeStep_def Let_def)

text \<open>
  Claim C1 at a sequence of two steps, built by \<^verbatim>\<open>addStepToFlow\<close> with \<^verbatim>\<open>stepIndex\<close> 0 and
  1. After \<^verbatim>\<open>removeStep(0)\<close> the one remaining step is at index 0 and still carries
  \<^verbatim>\<open>stepIndex\<close> 1: the survivors and their order are as the claim says, their position
  field is not renumbered. The next step that \<^verbatim>\<open>addStepToFlow\<close> appends is numbered by the
  length of the sequence and gets \<^verbatim>\<open>stepIndex\<close> 1 as well.
\<close>

theorem removeStep_leaves_stepIndex_stale:
  "map stepIndex (selectedSteps two_step_state) = [Some 0, Some 1]
   \<and> map step_id (selectedSteps (removeStep 1762135003000 0 two_step_state))
       = [''pvd_metal_1762135002000'']
   \<and> map stepIndex (selectedSteps (removeStep 1762135003000 0 two_step_state)) = [Some 1]
   \<and> map stepIndex (selectedSteps (addStepToFlow 1762135004000 1762135004000 rca_clean
         (removeStep 1762135003000 0 two_step_state))) = [Some 1, Some 1]"
proof -
  have r: "selectedSteps (removeStep 1762135003000 0 two_step_state)
             = [pvd_metal\<lparr>step_id := ''pvd_metal_1762135002000'', stepIndex := Some 1\<rparr>]"
    by (simp add: selectedSteps_removeStep two_step_state_steps)
  obtain cur where "currentFlow (removeStep 1762135003000 0 two_step_state) = Some cur"
    using two_step_state_current currentFlow_removeStep by blast
  then have "map stepIndex (selectedSteps (addStepToFlow 1762135004000 1762135004000 rca_clean
         (removeStep 1762135003000 0 two_step_state))) = [Some 1, Some 1]"
    by (simp add: selectedSteps_addStepToFlow r)
  then show ?thesis
    by (simp add: r two_step_state_steps catalog_defs)
qed

text \<open>
  Claim C7, as the code has it. For an index out of range (negative, or at least the
  length of the sequence; any index on the empty sequence) \<^verbatim>\<open>removeStep\<close> raises nothing.
  It returns the sequence unchanged, and when a flow is active it still writes that
  sequence back to the flow with a new \<^verbatim>\<open>modifiedAt\<close>.
\<close>

theorem removeStep_out_of_range:
  assumes "stepIdx < 0 \<or> int (length (selectedSteps s)) \<le> stepIdx"
  shows "selectedSteps (removeStep newDate stepIdx s) = selectedSteps s
     \<and> removeStep newDate stepIdx s =
         (case currentFlow s of
            None \<Rightarrow> s
          | Some cur \<Rightarrow>
              s\<lparr>currentFlow :=
                   Some (cur\<lparr>steps := Some (selectedSteps s), modifiedAt := newDate\<rparr>),
                 flows := map (\<lambda>f. if flow_id f = flow_id cur
                                  then cur\<lparr>steps := Some (selectedSteps s),
                                           modifiedAt := newDate\<rparr>
                                  else f) (flows s)\<rparr>)"
proof -
  have "map snd (filter (\<lambda>(index, _). int index \<noteq> stepIdx) (enumerate 0 (selectedSteps s)))
          = selectedSteps s"
    using assms by (auto simp: remove_index_enumerate)
  then show ?thesis
    by (simp add: removeStep_def Let_def split: option.splits)
qed

theorem removeStep_out_of_range_witness:
  "((0::int) < 0 \<or> int (length (selectedSteps sample_state)) \<le> 0)
   \<and> selectedSteps (removeStep 1762135003000 0 sample_state) = []
   \<and> ((5::int) < 0 \<or> int (length (selectedSteps two_step_state)) \<le> 5)
   \<and> selectedSteps (removeStep 1762135003000 5 two_step_state) = selectedSteps two_step_state
   \<and> ((- 1::int) < 0 \<or> int (length (selectedSteps two_step_state)) \<le> - 1)
   \<and> selectedSteps (removeStep 1762135003000 (- 1) two_step_state)
       = selectedSteps two_step_state"
proof -
  have h0: "(0::int) < 0 \<or> int (length (selectedSteps sample_state)) \<le> 0"
    by (simp add: sample_state_eq)
  have h5: "(5::int) < 0 \<or> int (length (selectedSteps two_step_state)) \<le> 5"
    by (simp add: two_step_state_steps)
  have hm: "(- 1::int) < 0 \<or> int (length (selectedSteps two_step_state)) \<le> - 1"
    by simp
  have "selectedSteps sample_state = []"
    by (simp add: sample_state_eq)
  with h0 h5 hm show ?thesis
    using removeStep_out_of_range [OF h0, of 1762135003000, THEN conjunct1]
      removeStep_out_of_range [OF h5, of 1762135003000, THEN conjunct1]
      removeStep_out_of_range [OF hm, of 1762135003000, THEN conjunct1]
    by simp
qed

text \<open>
  Removing index 0 from the empty sequence of a new flow returns a state: the sequence
  is still empty and the flow has a new \<^verbatim>\<open>modifiedAt\<close>.
\<close>

theorem removeStep_empty_returns:
  "removeStep 1762135003000 0 sample_state =
     \<lparr>flows = [sample_flow\<lparr>modifiedAt := 1762135003000\<rparr>],
      currentFlow = Some (sample_flow\<lparr>modifiedAt := 1762135003000\<rparr>),
      selectedSteps = []\<rparr>"
  by (simp add: removeStep_def sample_state_eq sample_flow_def Let_def)

text \<open>
  Claim C5 at two calls of \<^verbatim>\<open>addStepToFlow\<close> with the same catalog entry for which
  \<^verbatim>\<open>Date.now()\<close> returns the same millisecond: both steps of the sequence get the same id.
\<close>

theorem addStepToFlow_same_millisecond_same_id:
  "map step_id (selectedSteps
      (addStepToFlow 1762135001000 1762135001000 cvd_oxide
        (addStepToFlow 1762135001000 1762135001000 cvd_oxide sample_state)))
     = [''cvd_oxide_1762135001000'', ''cvd_oxide_1762135001000'']"
  by (simp add: sample_state_eq addStepToFlow_def Let_def show_nat_eval catalog_defs)

text \<open>
  Claim C10. Without an active flow \<^verbatim>\<open>addStepToFlow\<close> returns at once: the stored flows,
  the active flow and the step sequence are what they were.
\<close>

theorem addStepToFlow_without_active_flow:
  "currentFlow s = None \<Longrightarrow> addStepToFlow dateNow newDate step s = s"
  by (simp add: addStepToFlow_def)

theorem addStepToFlow_without_active_flow_witness:
  "currentFlow (initial_state :: js_number app_state) = None
   \<and> addStepToFlow 1762135001000 1762135001000 cvd_oxide initial_state = initial_state"
proof -
  have h: "currentFlow (initial_state :: js_number app_state) = None"
    by (simp add: initial_state_def)
  show ?thesis
    using h addStepToFlow_without_active_flow [OF h, of 1762135001000 1762135001000 cvd_oxide]
    by simp
qed

section \<open>Properties of export and import\<close>

lemmas codec_defs = sample_parse_def sample_stringify_def sample_flow_text_def
  no_steps_text_def nl_def

text \<open>
  Claim C6. For a text that the parser rejects, \<^verbatim>\<open>importFlow\<close> raises the alert for an
  invalid file and the stored flows, the active flow and the step sequence are what they
  were.
\<close>

theorem importFlow_malformed:
  "JSON_parse text = None \<Longrightarrow>
     importFlow JSON_parse dateNow newDate (Some text) s = (Some invalid_json_alert, s)"
  by (simp add: importFlow_def)

theorem importFlow_malformed_witness:
  \<open>sample_parse ''{"name": "broken"'' = None
   \<and> importFlow sample_parse 1762135060000 1762135060000 (Some ''{"name": "broken"'')
         two_step_state
       = (Some ''Error importing flow: Invalid JSON file'', two_step_state)\<close>
proof -
  have h: \<open>sample_parse ''{"name": "broken"'' = None\<close>
    by (simp add: codec_defs)
  show ?thesis
    using h
      importFlow_malformed [of sample_parse _ 1762135060000 1762135060000 two_step_state, OF h]
    by (simp add: invalid_json_alert_def)
qed

text \<open>
  A valid document whose value is \<^verbatim>\<open>null\<close>, a number, a string or a boolean is rejected
  like a malformed one, in every state: assigning its \<^verbatim>\<open>id\<close> throws inside the \<^verbatim>\<open>try\<close>
  block.
\<close>

lemma importFlow_not_object:
  "JSON_parse text = Some JSNull \<or> JSON_parse text = Some JSPrimitive \<Longrightarrow>
     importFlow JSON_parse dateNow newDate (Some text) s = (Some invalid_json_alert, s)"
  by (auto simp: importFlow_def)

text \<open>What an import of an object or array stores, in every state.\<close>

lemma importFlow_object:
  "JSON_parse text = Some (JSObject doc) \<Longrightarrow>
     importFlow JSON_parse dateNow newDate (Some text) s =
       (None, s\<lparr>flows := flows s @
                   [\<lparr>flow_id = dateNow, flow_name = doc_name doc,
                     description = doc_description doc, steps = doc_steps doc,
                     createdAt = doc_createdAt doc, modifiedAt = newDate\<rparr>],
                 currentFlow :=
                   Some \<lparr>flow_id = dateNow, flow_name = doc_name doc,
                         description = doc_description doc, steps = doc_steps doc,
                         createdAt = doc_createdAt doc, modifiedAt = newDate\<rparr>,
                 selectedSteps := (case doc_steps doc of None \<Rightarrow> [] | Some xs \<Rightarrow> xs)\<rparr>)"
  by (simp add: importFlow_def Let_def steps_or_empty_def)

text \<open>
  Claim C8. For every valid document whose value can hold fields (an object or an
  array) and has no \<^verbatim>\<open>steps\<close> field, \<^verbatim>\<open>importFlow\<close> succeeds in every state: no alert is
  raised, the flow is appended to the store and made the active one with the name,
  description and \<^verbatim>\<open>createdAt\<close> of the document as they are (missing when the document
  lacks them), and its step sequence is empty: the step sequence of the editor is \<open>[]\<close>
  and the stored flow, which has no \<^verbatim>\<open>steps\<close>, reads as \<open>[]\<close>.
\<close>

theorem importFlow_without_steps:
  assumes "JSON_parse text = Some (JSObject doc)" and "doc_steps doc = None"
  shows "importFlow JSON_parse dateNow newDate (Some text) s =
           (None, s\<lparr>flows := flows s @
                       [\<lparr>flow_id = dateNow, flow_name = doc_name doc,
                         description = doc_description doc, steps = None,
                         createdAt = doc_createdAt doc, modifiedAt = newDate\<rparr>],
                     currentFlow :=
                       Some \<lparr>flow_id = dateNow, flow_name = doc_name doc,
                             description = doc_description doc, steps = None,
                             createdAt = doc_createdAt doc, modifiedAt = newDate\<rparr>,
                     selectedSteps := []\<rparr>)
         \<and> steps_or_empty \<lparr>flow_id = dateNow, flow_name = doc_name doc,
              description = doc_description doc, steps = None,
              createdAt = doc_createdAt doc, modifiedAt = newDate\<rparr> = []"
  using assms by (simp add: importFlow_object steps_or_empty_def)

text \<open>
  A document with a name, a description and \<^verbatim>\<open>createdAt\<close> but no \<^verbatim>\<open>steps\<close>, imported into
  a store that holds a flow with two steps; and the documents \<^verbatim>\<open>{}\<close> and \<^verbatim>\<open>[]\<close>.
\<close>

theorem importFlow_without_steps_witness:
  "sample_parse no_steps_text = Some (JSObject no_steps_doc) \<and> doc_steps no_steps_doc = None
   \<and> importFlow sample_parse 1762135060000 1762135060001 (Some no_steps_text) two_step_state =
       (None, \<lparr>flows = [two_step_flow,
                  \<lparr>flow_id = 1762135060000, flow_name = Some ''Imported flow'',
                    description = Some ''no steps field'', steps = None,
                    createdAt = Some 1761955200000, modifiedAt = 1762135060001\<rparr>],
               currentFlow =
                 Some \<lparr>flow_id = 1762135060000, flow_name = Some ''Imported flow'',
                       description = Some ''no steps field'', steps = None,
                       createdAt = Some 1761955200000, modifiedAt = 1762135060001\<rparr>,
               selectedSteps = []\<rparr>)
   \<and> sample_parse ''{}'' = Some (JSObject empty_doc) \<and> doc_steps empty_doc = None
   \<and> selectedSteps (snd (importFlow sample_parse 1762135060000 1762135060001 (Some ''{}'')
         two_step_state)) = []
   \<and> map steps_or_empty (flows (snd (importFlow sample_parse 1762135060000 1762135060001
         (Some ''{}'') two_step_state))) = [two_steps, []]
   \<and> fst (importFlow sample_parse 1762135060000 1762135060001 (Some ''[]'') two_step_state)
       = None"
proof -
  have h1: "sample_parse no_steps_text = Some (JSObject no_steps_doc)"
    by (simp add: codec_defs)
  have h2: "doc_steps no_steps_doc = None"
    by (simp add: no_steps_doc_def)
  have e1: "sample_parse ''{}'' = Some (JSObject empty_doc)"
    by (simp add: codec_defs)
  have a1: "sample_parse ''[]'' = Some (JSObject empty_doc)"
    by (simp add: codec_defs)
  have e2: "doc_steps empty_doc = None"
    by (simp add: empty_doc_def)
  note named = importFlow_without_steps
    [of sample_parse no_steps_text no_steps_doc 1762135060000 1762135060001 two_step_state,
     OF h1 h2, THEN conjunct1]
  note braces = importFlow_without_steps
    [of sample_parse "''{}''" empty_doc 1762135060000 1762135060001 two_step_state,
     OF e1 e2, THEN conjunct1]
  note brackets = importFlow_without_steps
    [of sample_parse "''[]''" empty_doc 1762135060000 1762135060001 two_step_state,
     OF a1 e2, THEN conjunct1]
  have c1: "importFlow sample_parse 1762135060000 1762135060001 (Some no_steps_text)
               two_step_state =
       (None, \<lparr>flows = [two_step_flow,
                  \<lparr>flow_id = 1762135060000, flow_name = Some ''Imported flow'',
                    description = Some ''no steps field'', steps = None,
                    createdAt = Some 1761955200000, modifiedAt = 1762135060001\<rparr>],
               currentFlow =
                 Some \<lparr>flow_id = 1762135060000, flow_name = Some ''Imported flow'',
                       description = Some ''no steps field'', steps = None,
                       createdAt = Some 1761955200000, modifiedAt = 1762135060001\<rparr>,
               selectedSteps = []\<rparr>)"
    unfolding named by (simp add: two_step_state_eq no_steps_doc_def)
  have c2: "selectedSteps (snd (importFlow sample_parse 1762135060000 1762135060001
              (Some ''{}'') two_step_state)) = []"
    unfolding braces by simp
  have c3: "map steps_or_empty (flows (snd (importFlow sample_parse 1762135060000
              1762135060001 (Some ''{}'') two_step_state))) = [two_steps, []]"
    unfolding braces by (simp add: two_step_state_eq steps_or_empty_def two_step_flow_def)
  have c4: "fst (importFlow sample_parse 1762135060000 1762135060001 (Some ''[]'')
              two_step_state) = None"
    unfolding brackets by simp
  from h1 h2 e1 e2 c1 c2 c3 c4 show ?thesis by blast
qed

text \<open>
  A stored flow without a name cannot be exported: after the document \<^verbatim>\<open>{}\<close> was
  imported, \<^verbatim>\<open>exportFlow\<close> throws before the download, whatever the serializer returns.
\<close>

lemma exportFlow_without_name:
  "exportFlow JSON_stringify
     (snd (importFlow sample_parse 1762135060000 1762135060001 (Some ''{}'') two_step_state))
     = ThrewTypeError"
proof -
  have p: "sample_parse ''{}'' = Some (JSObject empty_doc)"
    by (simp add: codec_defs)
  show ?thesis
    unfolding importFlow_object [of sample_parse "''{}''" empty_doc, OF p]
    by (simp add: exportFlow_def empty_doc_def)
qed

text \<open>
  Claim C3 at a new flow, whose id is the reading 1762135000000 of \<^verbatim>\<open>Date.now()\<close>. Its
  export is downloaded, and the text is imported while \<^verbatim>\<open>Date.now()\<close> returns
  1762135000000 again: the name, description, steps and \<^verbatim>\<open>createdAt\<close> of the copy are
  those of the flow, its \<^verbatim>\<open>modifiedAt\<close> is not earlier, and its id is the id of the flow.
  The store then holds two flows with one id.
\<close>

theorem import_of_export_same_id:
  "exportFlow sample_stringify sample_state = Download sample_flow_text
   \<and> importFlow sample_parse 1762135000000 1762135000000 (Some sample_flow_text) sample_state =
       (None, \<lparr>flows = [sample_flow, sample_flow], currentFlow = Some sample_flow,
               selectedSteps = []\<rparr>)
   \<and> map flow_id (flows (snd (importFlow sample_parse 1762135000000 1762135000000
         (Some sample_flow_text) sample_state))) = [1762135000000, 1762135000000]"
proof -
  have p: "sample_parse sample_flow_text = Some (JSObject sample_doc)"
    by (simp add: codec_defs)
  have e: "exportFlow sample_stringify sample_state = Download sample_flow_text"
    by (simp add: exportFlow_def sample_state_eq sample_stringify_def)
       (simp add: sample_flow_def)
  have i: "importFlow sample_parse 1762135000000 1762135000000 (Some sample_flow_text)
             sample_state =
       (None, \<lparr>flows = [sample_flow, sample_flow], currentFlow = Some sample_flow,
               selectedSteps = []\<rparr>)"
    unfolding importFlow_object [of sample_parse sample_flow_text sample_doc, OF p]
    by (simp add: sample_state_eq sample_doc_def sample_flow_def)
  show ?thesis
    by (simp add: e i) (simp add: sample_flow_def)
qed

end
